theory Spec2Isabelle
  imports Main "HOL-Library.Char_ord" "HOL-Library.List_Lexorder" "HOL-Library.Sublist"
begin

section \<open>Structure-tag classification (adobeAcrobat.py, normalizeStdName)\<close>

text \<open>
  Python strings are modelled as \<open>string\<close>. Two strings are compared as Python compares
  them: character by character by character code, a proper prefix being smaller
  (the lexicographic order on lists over the order of \<open>char\<close> by code).
\<close>

text \<open>The members of \<open>controlTypes.Role\<close> that adobeAcrobat.py names.\<close>

datatype Role =
  SECTION | BLOCKQUOTE | CAPTION | LIST | LISTITEM | LABEL | PARAGRAPH | HEADING | MATH
  | PANE | TEXTFRAME

text \<open>The exceptions that the modelled functions raise.\<close>

datatype pyerror = LookupError | IndexError | AttributeError

text \<open>The dictionary \<open>stdNamesToRoles\<close>, in the order of the source.\<close>

definition stdNamesToRoles :: "(string \<times> Role) list" where
  "stdNamesToRoles =
    [(''Sect'', SECTION),
     (''Div'', SECTION),
     (''BlockQuote'', BLOCKQUOTE),
     (''Caption'', CAPTION),
     (''L'', LIST),
     (''LI'', LISTITEM),
     (''Lbl'', LABEL),
     (''P'', PARAGRAPH),
     (''H'', HEADING),
     (''Formula'', MATH)]"

text \<open>
  \<open>normalizeStdName\<close>: the range test comes first and returns \<open>stdName[1]\<close> (a string of
  one character; IndexError if there is no such index); then the dictionary lookup, whose
  KeyError is swallowed; then \<open>raise LookupError\<close>.
\<close>

definition normalizeStdName :: "string \<Rightarrow> pyerror + (Role \<times> string option)" where
  "normalizeStdName stdName =
    (if stdName \<noteq> [] \<and> ''H1'' \<le> stdName \<and> stdName \<le> ''H6'' then
       (case stdName of
          _ # d # _ \<Rightarrow> Inr (HEADING, Some [d])
        | _ \<Rightarrow> Inl IndexError)
     else
       (case map_of stdNamesToRoles stdName of
          Some role \<Rightarrow> Inr (role, None)
        | None \<Rightarrow> Inl LookupError))"

text \<open>
  The pattern named by the specification, in its own words: the letter H followed by a
  single digit from 1 to 6.
\<close>

definition spec_H_digit_pattern :: "string \<Rightarrow> bool" where
  "spec_H_digit_pattern s =
    (case s of
       [h, d] \<Rightarrow> h = CHR ''H'' \<and> d \<in> set ''123456''
     | _ \<Rightarrow> False)"

text \<open>The range test of the first rule, as the source writes it.\<close>

definition in_heading_range :: "string \<Rightarrow> bool" where
  "in_heading_range stdName = (stdName \<noteq> [] \<and> ''H1'' \<le> stdName \<and> stdName \<le> ''H6'')"

section \<open>The foreign element tree (IPDDomElement)\<close>

text \<open>
  A node of the PDF structure tree as the module reads it: \<open>GetTagName()\<close>, \<open>GetID()\<close>,
  \<open>GetAttribute(name, owner)\<close>, \<open>GetValue()\<close>, \<open>GetChildCount()\<close> and \<open>GetChild(i)\<close>.
  The attribute store is an association list from (name, owner) to the value; an
  attribute that is not stored reads as the empty string, which the code cannot tell
  from an absent one (\<open>if val:\<close>). A child is \<open>None\<close> when
  \<open>GetChild(i).QueryInterface(IPDDomElement)\<close> raises COMError and \<open>Some n\<close> when it
  narrows to the element \<open>n\<close>. \<open>GetValue()\<close> gives \<open>None\<close> when the node has no value
  and \<open>Some v\<close> when it has the string \<open>v\<close>: \<open>_getNodeMathMl\<close> tests the value for truth
  (\<open>if val:\<close>), \<open>_get_mathMl\<close> calls \<open>startswith\<close> on it, which Python has for a string
  only. The tag name and the identifier are strings.
\<close>

datatype pdnode =
  PDDomElement
    (GetTagName: string)
    (GetID: string)
    (attributes: "((string \<times> string) \<times> string) list")
    (GetValue: "string option")
    (childNodes: "pdnode option list")

definition GetAttribute :: "pdnode \<Rightarrow> string \<Rightarrow> string \<Rightarrow> string" where
  "GetAttribute node attr owner =
    (case map_of (attributes node) (attr, owner) of Some v \<Rightarrow> v | None \<Rightarrow> [])"

section \<open>String helpers of the Python library\<close>

text \<open>
  \<open>str.replace(old, new)\<close>: every occurrence of \<open>old\<close>, found from left to right without
  overlap, is replaced. For the empty \<open>old\<close> Python puts \<open>new\<close> before every character and
  at the end.
\<close>

function replace_scan :: "string \<Rightarrow> string \<Rightarrow> string \<Rightarrow> string" where
  "replace_scan old new [] = []"
| "replace_scan old new (c # cs) =
    (if old \<noteq> [] \<and> prefix old (c # cs)
     then new @ replace_scan old new (drop (length old) (c # cs))
     else c # replace_scan old new cs)"
  by pat_completeness auto
termination
  by (relation "measure (\<lambda>(old, new, s). length s)") auto

definition str_replace :: "string \<Rightarrow> string \<Rightarrow> string \<Rightarrow> string" where
  "str_replace old new s =
    (if old = [] then new @ concat (map (\<lambda>c. c # new) s) else replace_scan old new s)"

text \<open>\<open>str.startswith\<close>.\<close>

definition startswith :: "string \<Rightarrow> string \<Rightarrow> bool" where
  "startswith s p = prefix p s"

text \<open>
  \<open>html.escape(s)\<close> with its default \<open>quote=True\<close>: five replacements in this order, the
  ampersand first.
\<close>

definition html_escape :: "string \<Rightarrow> string" where
  "html_escape s =
    (let s = str_replace ''&'' ''&amp;'' s;
         s = str_replace ''<'' ''&lt;'' s;
         s = str_replace ''>'' ''&gt;'' s;
         s = str_replace ''\"'' ''&quot;'' s;
         s = str_replace [CHR 0x27] ''&#x27;'' s
     in s)"

text \<open>What \<open>html.escape\<close> does to one character.\<close>

definition html_escape_char :: "char \<Rightarrow> string" where
  "html_escape_char c =
    (if c = CHR ''&'' then ''&amp;''
     else if c = CHR ''<'' then ''&lt;''
     else if c = CHR ''>'' then ''&gt;''
     else if c = CHR 0x22 then ''&quot;''
     else if c = CHR 0x27 then ''&#x27;''
     else [c])"

section \<open>MathML reconstruction (AcrobatNode)\<close>

text \<open>\<open>getMathMLAttributes\<close>: the loop over \<open>attrList\<close>, with \<open>attrValues\<close> as accumulator.\<close>

fun getMathMLAttributes_loop :: "pdnode \<Rightarrow> string list \<Rightarrow> string \<Rightarrow> string" where
  "getMathMLAttributes_loop node [] attrValues = attrValues"
| "getMathMLAttributes_loop node (attr # attrList) attrValues =
    (let val = GetAttribute node attr ''NSO''
     in getMathMLAttributes_loop node attrList
          (if val \<noteq> [] then attrValues @ '' '' @ attr @ ''=\"'' @ val @ ''\"''
           else attrValues))"

definition getMathMLAttributes :: "pdnode \<Rightarrow> string list \<Rightarrow> string" where
  "getMathMLAttributes node attrList = getMathMLAttributes_loop node attrList []"

text \<open>
  The \<open>match tag\<close> statement of \<open>_getNodeMathMl\<close>: the attribute list that the matching
  case passes to \<open>getMathMLAttributes\<close>; the default case appends nothing.
\<close>

definition matchTagAttrs :: "string \<Rightarrow> string list" where
  "matchTagAttrs tag =
    (if tag = ''mi'' \<or> tag = ''mn'' \<or> tag = ''mo'' \<or> tag = ''mtext'' then [''mathvariant'']
     else if tag = ''mfenced'' then [''open'', ''close'', ''separators'']
     else if tag = ''menclose'' then [''notation'', ''notationtype'']
     else if tag = ''annotation-xml'' \<or> tag = ''annotation'' then [''encoding'']
     else if tag = ''ms'' then [''open'', ''close'']
     else if tag = ''mspace'' then [''width'']
     else if tag = ''msgroup'' then [''position'', ''shift'']
     else if tag = ''msrow'' then [''position'']
     else if tag = ''msline'' then [''position'', ''length'']
     else if tag = ''mscarries'' then [''position'', ''crossout'']
     else if tag = ''mscarry'' then [''crossout'']
     else if tag = ''mstack'' then [''align'', ''stackalign'']
     else if tag = ''mlongdiv'' then [''longdivstyle'']
     else [])"

text \<open>The opening tag that \<open>_getNodeMathMl\<close> builds before it reads the value.\<close>

definition openingTag :: "pdnode \<Rightarrow> string" where
  "openingTag node =
    (let tag = GetTagName node;
         answer = ''<'' @ tag;
         ident = GetID node;
         answer = (if ident \<noteq> [] then answer @ '' id=\"'' @ ident @ ''\"'' else answer);
         answer = answer @ getMathMLAttributes node [''intent'', ''arg''];
         answer = answer @ getMathMLAttributes node (matchTagAttrs tag);
         answer = answer @ ''>''
     in answer)"

text \<open>
  \<open>_getNodeMathMl\<close>. A non-empty value ends the recursion; otherwise (no value, or the
  empty string) the loop over the children skips a child that does not narrow and appends
  the markup of every other child, one character at a time as the source does.
\<close>

fun getNodeMathMl :: "pdnode \<Rightarrow> string"
  and getNodeMathMl_children :: "pdnode option list \<Rightarrow> string \<Rightarrow> string" where
  "getNodeMathMl (PDDomElement tag ident ats val cs) =
    (let answer = openingTag (PDDomElement tag ident ats val cs);
         answer =
           (case val of
              Some v \<Rightarrow> if v \<noteq> [] then answer @ v else getNodeMathMl_children cs answer
            | None \<Rightarrow> getNodeMathMl_children cs answer)
     in answer @ ''</'' @ tag @ ''>'')"
| "getNodeMathMl_children [] answer = answer"
| "getNodeMathMl_children (None # cs) answer = getNodeMathMl_children cs answer"
| "getNodeMathMl_children (Some subNode # cs) answer =
    getNodeMathMl_children cs (foldl (\<lambda>a sub. a @ [sub]) answer (getNodeMathMl subNode))"

text \<open>
  The child loop of \<open>_get_mathMl\<close>: the first child that narrows and whose tag name is
  \<open>math\<close> ends the loop with its markup; \<open>None\<close> when the loop runs to its end.
\<close>

fun get_mathMl_children :: "pdnode option list \<Rightarrow> string option" where
  "get_mathMl_children [] = None"
| "get_mathMl_children (None # cs) = get_mathMl_children cs"
| "get_mathMl_children (Some child # cs) =
    (if GetTagName child = ''math'' then Some (getNodeMathMl child)
     else get_mathMl_children cs)"

definition mathml_xmlns_decl :: string where
  "mathml_xmlns_decl = ''xmlns:mml=\"http://www.w3.org/1998/Math/MathML\"''"

text \<open>
  \<open>_get_mathMl\<close>; the argument is \<open>self.pdDomNode\<close>, which may be \<open>None\<close>. In the third
  tier \<open>mathMl.startswith\<close> raises AttributeError when \<open>GetValue()\<close> gave \<open>None\<close>.
\<close>

definition get_mathMl :: "pdnode option \<Rightarrow> pyerror + string" where
  "get_mathMl pdDomNode =
    (case pdDomNode of
       None \<Rightarrow> Inl LookupError
     | Some node \<Rightarrow>
        (let math = GetAttribute node ''MSFT_MathML'' ''MSFT_Office'' in
         if math \<noteq> [] then Inr math
         else
           (case get_mathMl_children (childNodes node) of
              Some answer \<Rightarrow> Inr answer
            | None \<Rightarrow>
               (case GetValue node of
                  None \<Rightarrow> Inl AttributeError
                | Some mathMl \<Rightarrow>
                   if startswith mathMl ''<math''
                   then Inr (str_replace mathml_xmlns_decl [] mathMl)
                   else Inr (''<math><mtext>'' @ html_escape mathMl @ ''</mtext></math>'')))))"

section \<open>The markup as a tree of elements\<close>

text \<open>
  The attribute table of the specification (AttributeWhitelist, section 6), in its own
  words: the attribute names allowed for a tag beyond the universal \<open>intent\<close> and \<open>arg\<close>.
  It is compared below with the \<open>match\<close> statement of the source.
\<close>

definition spec_AttributeWhitelist :: "(string \<times> string list) list" where
  "spec_AttributeWhitelist =
    [(''mi'', [''mathvariant'']),
     (''mn'', [''mathvariant'']),
     (''mo'', [''mathvariant'']),
     (''mtext'', [''mathvariant'']),
     (''mfenced'', [''open'', ''close'', ''separators'']),
     (''menclose'', [''notation'', ''notationtype'']),
     (''annotation-xml'', [''encoding'']),
     (''annotation'', [''encoding'']),
     (''ms'', [''open'', ''close'']),
     (''mspace'', [''width'']),
     (''msgroup'', [''position'', ''shift'']),
     (''msrow'', [''position'']),
     (''msline'', [''position'', ''length'']),
     (''mscarries'', [''position'', ''crossout'']),
     (''mscarry'', [''crossout'']),
     (''mstack'', [''align'', ''stackalign'']),
     (''mlongdiv'', [''longdivstyle''])]"

definition spec_whitelist :: "string \<Rightarrow> string list" where
  "spec_whitelist tag =
    (case map_of spec_AttributeWhitelist tag of Some names \<Rightarrow> names | None \<Rightarrow> [])"

definition spec_allowed :: "string \<Rightarrow> string list" where
  "spec_allowed tag = [''intent'', ''arg''] @ spec_whitelist tag"

text \<open>
  An element of markup: the tag name, the attributes as pairs of name and value in the
  order written, the text, and the child elements. \<open>render\<close> writes an element the way
  \<open>_getNodeMathMl\<close> does: \<open><tag\<close>, every attribute as a blank, the name, \<open>="\<close>, the value
  and \<open>"\<close>, then \<open>>\<close>, the text, the children, and \<open></tag>\<close>.
\<close>

datatype xml =
  XElement (xml_tag: string) (xml_attrs: "(string \<times> string) list") (xml_text: string)
    (xml_children: "xml list")

definition render_attr :: "string \<times> string \<Rightarrow> string" where
  "render_attr av = '' '' @ fst av @ ''=\"'' @ snd av @ ''\"''"

fun render :: "xml \<Rightarrow> string" where
  "render (XElement tag ats txt kids) =
    ''<'' @ tag @ concat (map render_attr ats) @ ''>'' @ txt @ concat (map render kids)
    @ ''</'' @ tag @ ''>''"

text \<open>
  The attributes that one call of \<open>getMathMLAttributes\<close> appends: for every name of
  \<open>attrList\<close> in order, the name and its value when \<open>GetAttribute(attr, "NSO")\<close> is
  non-empty (\<open>if val:\<close>).
\<close>

definition present_attrs :: "pdnode \<Rightarrow> string list \<Rightarrow> (string \<times> string) list" where
  "present_attrs node attrList =
    map (\<lambda>attr. (attr, GetAttribute node attr ''NSO''))
      (filter (\<lambda>attr. GetAttribute node attr ''NSO'' \<noteq> []) attrList)"

text \<open>
  The attributes that one call of \<open>_getNodeMathMl\<close> appends to the opening tag: \<open>id\<close> when
  \<open>GetID()\<close> is non-empty, then those of \<open>intent\<close> and \<open>arg\<close>, then those of the matching
  case of the \<open>match\<close> statement.
\<close>

definition emitted_attrs :: "pdnode \<Rightarrow> (string \<times> string) list" where
  "emitted_attrs node =
    (if GetID node \<noteq> [] then [(''id'', GetID node)] else [])
    @ present_attrs node [''intent'', ''arg'']
    @ present_attrs node (matchTagAttrs (GetTagName node))"

text \<open>
  The element that \<open>_getNodeMathMl\<close> writes for a node: the value as text and no children
  when the value is non-empty, otherwise the elements of the children that narrow.
\<close>

fun emitted :: "pdnode \<Rightarrow> xml"
  and emitted_children :: "pdnode option list \<Rightarrow> xml list" where
  "emitted (PDDomElement tag ident ats val cs) =
    (let attrs = emitted_attrs (PDDomElement tag ident ats val cs) in
     case val of
       Some v \<Rightarrow>
        if v \<noteq> [] then XElement tag attrs v [] else XElement tag attrs [] (emitted_children cs)
     | None \<Rightarrow> XElement tag attrs [] (emitted_children cs))"
| "emitted_children [] = []"
| "emitted_children (None # cs) = emitted_children cs"
| "emitted_children (Some subNode # cs) = emitted subNode # emitted_children cs"

text \<open>
  Every attribute of every element has a non-empty value and a name that \<open>allowed\<close> lists
  for the tag of its element.
\<close>

fun attrs_allowed :: "(string \<Rightarrow> string list) \<Rightarrow> xml \<Rightarrow> bool" where
  "attrs_allowed allowed (XElement tag ats txt kids) =
    ((\<forall>av \<in> set ats. snd av \<noteq> [] \<and> fst av \<in> set (allowed tag))
     \<and> (\<forall>kid \<in> set kids. attrs_allowed allowed kid))"

text \<open>The names that the source can write for a tag: \<open>id\<close> and those of the specification.\<close>

definition code_allowed :: "string \<Rightarrow> string list" where
  "code_allowed tag = ''id'' # spec_allowed tag"

section \<open>Balance of tags in a string\<close>

text \<open>
  A scan of a string for tags of the forms \<open><name attributes>\<close>, \<open></name>\<close> and
  \<open><name attributes/>\<close>. A tag runs from \<open><\<close> to the next \<open>>\<close>; a \<open><\<close> inside a tag is
  malformed. At the end of a tag the body between the brackets decides: a body that
  starts with \<open>/\<close> closes the innermost open element, whose name must be the rest of the
  body; a body that ends with \<open>/\<close> opens and closes at once; any other body opens an
  element whose name is the body up to the first blank. The stack holds the names of the
  open elements, innermost first. A string has balanced tags when the scan ends outside a
  tag with no element open.
\<close>

datatype scan_state = InText | InTag string | Malformed

definition end_tag :: "string \<Rightarrow> string list \<Rightarrow> scan_state \<times> string list" where
  "end_tag body stack =
    (case body of
       [] \<Rightarrow> (Malformed, stack)
     | c # name \<Rightarrow>
        if c = CHR ''/'' then
          (case stack of
             [] \<Rightarrow> (Malformed, stack)
           | opened # rest \<Rightarrow> if opened = name then (InText, rest) else (Malformed, stack))
        else if last body = CHR ''/'' then (InText, stack)
        else (InText, takeWhile (\<lambda>x. x \<noteq> CHR '' '') body # stack))"

fun scan_step :: "scan_state \<times> string list \<Rightarrow> char \<Rightarrow> scan_state \<times> string list" where
  "scan_step (InText, stack) c = (if c = CHR ''<'' then (InTag [], stack) else (InText, stack))"
| "scan_step (InTag body, stack) c =
    (if c = CHR ''>'' then end_tag body stack
     else if c = CHR ''<'' then (Malformed, stack)
     else (InTag (body @ [c]), stack))"
| "scan_step (Malformed, stack) c = (Malformed, stack)"

definition balanced_tags :: "string \<Rightarrow> bool" where
  "balanced_tags s = (foldl scan_step (InText, []) s = (InText, []))"

text \<open>
  Strings without markup characters: a tag name is not empty and has no angle bracket,
  slash or blank; a text has no \<open><\<close>; an attribute value has no angle bracket. A node is
  free of markup when this holds of the tag name, the identifier, the attribute values and
  the value of the node and of every node below it; a child that does not narrow is free.
\<close>

definition plain_name :: "string \<Rightarrow> bool" where
  "plain_name s = (s \<noteq> [] \<and> set s \<inter> {CHR ''<'', CHR ''>'', CHR ''/'', CHR '' ''} = {})"

definition plain_text :: "string \<Rightarrow> bool" where
  "plain_text s = (CHR ''<'' \<notin> set s)"

definition plain_attr_value :: "string \<Rightarrow> bool" where
  "plain_attr_value s = (CHR ''<'' \<notin> set s \<and> CHR ''>'' \<notin> set s)"

fun markup_free :: "pdnode \<Rightarrow> bool"
  and markup_free_children :: "pdnode option list \<Rightarrow> bool" where
  "markup_free (PDDomElement tag ident ats val cs) =
    (plain_name tag \<and> plain_attr_value ident
     \<and> list_all (\<lambda>kv. plain_attr_value (snd kv)) ats
     \<and> (case val of Some v \<Rightarrow> plain_text v | None \<Rightarrow> True)
     \<and> markup_free_children cs)"
| "markup_free_children [] = True"
| "markup_free_children (None # cs) = markup_free_children cs"
| "markup_free_children (Some subNode # cs) = (markup_free subNode \<and> markup_free_children cs)"

section \<open>Properties of the classifier\<close>

lemma char_less_6_iff: "d < CHR ''6'' \<longleftrightarrow> d \<le> CHR ''5''"
  by (simp add: less_char_def less_eq_char_def) arith

lemma in_heading_range_shape:
  "in_heading_range s \<longleftrightarrow>
     (s = ''H6'' \<or> (\<exists>d rest. s = CHR ''H'' # d # rest \<and> CHR ''1'' \<le> d \<and> d \<le> CHR ''5''))"
proof (cases s)
  case Nil
  then show ?thesis by (simp add: in_heading_range_def)
next
  case (Cons h t)
  show ?thesis
  proof (cases t)
    case Nil
    with Cons show ?thesis by (auto simp: in_heading_range_def)
  next
    case (Cons d rest)
    with \<open>s = h # t\<close> show ?thesis
      by (cases rest) (auto simp: in_heading_range_def char_less_6_iff order.order_iff_strict)
  qed
qed

lemma char_digit_1_5:
  assumes "CHR ''1'' \<le> d" and "d \<le> CHR ''5''"
  shows "d \<in> set ''12345''"
proof -
  from assms have "49 \<le> (of_char d :: nat)" and "(of_char d :: nat) \<le> 53"
    by (simp_all add: less_eq_char_def)
  then have "(of_char d :: nat) = 49 \<or> (of_char d :: nat) = 50 \<or> (of_char d :: nat) = 51
      \<or> (of_char d :: nat) = 52 \<or> (of_char d :: nat) = 53"
    by arith
  then have "(of_char d :: nat) = of_char CHR ''1'' \<or> (of_char d :: nat) = of_char CHR ''2''
      \<or> (of_char d :: nat) = of_char CHR ''3'' \<or> (of_char d :: nat) = of_char CHR ''4''
      \<or> (of_char d :: nat) = of_char CHR ''5''"
    by simp
  then have "d = CHR ''1'' \<or> d = CHR ''2'' \<or> d = CHR ''3'' \<or> d = CHR ''4'' \<or> d = CHR ''5''"
    by (simp only: of_char_eq_iff)
  then show ?thesis
    by auto
qed

lemma set_mono_12345: "set ''12345'' \<subseteq> set ''123456''"
  by simp

lemma normalizeStdName_heading_first:
  assumes r: "in_heading_range s"
  shows "1 < length s \<and> normalizeStdName s = Inr (HEADING, Some [s ! 1])
        \<and> s ! 1 \<in> set ''123456'' \<and> map_of stdNamesToRoles s = None"
proof -
  from r in_heading_range_shape [of s] consider "s = ''H6''"
    | d rest where "s = CHR ''H'' # d # rest" "CHR ''1'' \<le> d" "d \<le> CHR ''5''"
    by blast
  then show ?thesis
  proof cases
    case 1
    then show ?thesis by (simp add: normalizeStdName_def stdNamesToRoles_def)
  next
    case 2
    from 2(2,3) have "d \<in> set ''123456''"
      by (rule char_digit_1_5 [THEN subsetD [OF set_mono_12345]])
    with r 2 show ?thesis
      by (auto simp add: normalizeStdName_def in_heading_range_def stdNamesToRoles_def)
  qed
qed

lemma normalizeStdName_heading_only:
  "normalizeStdName s = Inr (HEADING, Some level) \<Longrightarrow> in_heading_range s"
  by (auto simp: normalizeStdName_def in_heading_range_def split: if_splits option.splits)

lemma spec_H_digit_pattern_in_range: "spec_H_digit_pattern s \<Longrightarrow> in_heading_range s"
  by (auto simp: spec_H_digit_pattern_def in_heading_range_def split: list.splits)

text \<open>
  The first rule of \<open>normalizeStdName\<close>: HEADING with a level is returned exactly for the
  names of the lexicographic range from H1 to H6. That range is the name H6 together with
  every name that starts with H and a digit from 1 to 5, whatever follows. For every name
  of the range the level is the character at index 1, a digit from 1 to 6, and the name is
  not a key of the table. The six names of the pattern lie in the range.
\<close>

lemma normalizeStdName_heading_range:
  "((\<exists>level. normalizeStdName s = Inr (HEADING, Some level)) \<longleftrightarrow> in_heading_range s)
   \<and> (in_heading_range s \<longleftrightarrow>
        (s = ''H6'' \<or>
         (\<exists>d rest. s = CHR ''H'' # d # rest \<and> CHR ''1'' \<le> d \<and> d \<le> CHR ''5'')))
   \<and> (in_heading_range s \<longrightarrow>
        1 < length s \<and> normalizeStdName s = Inr (HEADING, Some [s ! 1])
        \<and> s ! 1 \<in> set ''123456'' \<and> map_of stdNamesToRoles s = None)
   \<and> (spec_H_digit_pattern s \<longrightarrow> in_heading_range s)"
  using in_heading_range_shape [of s] normalizeStdName_heading_first [of s]
    normalizeStdName_heading_only [of s] spec_H_digit_pattern_in_range [of s]
  by blast

lemma normalizeStdName_H3:
  "in_heading_range ''H3'' \<and> spec_H_digit_pattern ''H3''
   \<and> normalizeStdName ''H3'' = Inr (HEADING, Some ''3'')"
  using normalizeStdName_heading_range [of "''H3''"]
  by (simp add: spec_H_digit_pattern_def)

text \<open>
  C3. The range test of the first rule accepts names that are not the letter H followed
  by a single digit from 1 to 6, which is what the comment on the table (H1 to H6 are
  handled separately) and the docstring (the level number of the heading, \<open>H5\<close> produces
  \<open>5\<close>) describe. The name H10 lies in the range and is classified as a heading of level
  1, H1x likewise, and H59 as a heading of level 5; on the other side of the range H60 and
  H7 raise LookupError.
\<close>

theorem normalizeStdName_H10:
  "in_heading_range ''H10'' \<and> \<not> spec_H_digit_pattern ''H10''
   \<and> normalizeStdName ''H10'' = Inr (HEADING, Some ''1'')
   \<and> normalizeStdName ''H1x'' = Inr (HEADING, Some ''1'')
   \<and> normalizeStdName ''H59'' = Inr (HEADING, Some ''5'')
   \<and> normalizeStdName ''H60'' = Inl LookupError
   \<and> normalizeStdName ''H7'' = Inl LookupError"
  by (simp add: in_heading_range_def normalizeStdName_def spec_H_digit_pattern_def
      stdNamesToRoles_def)



section \<open>Properties of the string helpers\<close>

lemma replace_scan_absent:
  "\<not> sublist old s \<Longrightarrow> replace_scan old new s = s"
proof (induction s)
  case Nil
  then show ?case by simp
next
  case (Cons c cs)
  from Cons.prems have np: "\<not> prefix old (c # cs)"
    by (auto dest: prefix_imp_sublist)
  from Cons.prems have "\<not> sublist old cs"
    by (auto simp: sublist_Cons_right)
  then have "replace_scan old new cs = cs" by (rule Cons.IH)
  with np show ?case by simp
qed

lemma prefix_overlap_sublist:
  assumes "old \<noteq> []" and "prefix old ((x # a) @ old @ b)"
  shows "sublist old ((x # a) @ butlast old)"
proof -
  from assms(1) obtain ys y where old: "old = ys @ [y]"
    by (cases old rule: rev_cases) auto
  have w: "(x # a) @ old @ b = ((x # a) @ ys) @ (y # b)"
    by (simp add: old)
  have "prefix ((x # a) @ ys) ((x # a) @ old @ b)"
    unfolding w by (rule prefixI) simp
  moreover have "length old \<le> length ((x # a) @ ys)"
    by (simp add: old)
  ultimately have "prefix old ((x # a) @ ys)"
    using assms(2) by (rule prefix_length_prefix [rotated])
  then have "sublist old ((x # a) @ ys)"
    by (rule prefix_imp_sublist)
  then show ?thesis by (simp add: old)
qed

lemma replace_scan_first:
  assumes "old \<noteq> []" and "\<not> sublist old (a @ butlast old)"
  shows "replace_scan old new (a @ old @ b) = a @ new @ replace_scan old new b"
  using assms(2)
proof (induction a)
  case Nil
  from assms(1) obtain c cs where old: "old = c # cs" by (cases old) auto
  show ?case by (simp add: old)
next
  case (Cons x a)
  from Cons.prems assms(1) have np: "\<not> prefix old (x # a @ old @ b)"
    using prefix_overlap_sublist [of old x a b] by auto
  from Cons.prems have "\<not> sublist old (a @ butlast old)"
    by (auto simp: sublist_Cons_right)
  then have "replace_scan old new (a @ old @ b) = a @ new @ replace_scan old new b"
    by (rule Cons.IH)
  with np show ?case by simp
qed

lemma foldl_append_chars: "foldl (\<lambda>a sub. a @ [sub]) answer s = answer @ s"
  by (induction s arbitrary: answer) simp_all

lemma getNodeMathMl_children_concat:
  "getNodeMathMl_children cs answer =
     answer @ concat (map (\<lambda>c. case c of None \<Rightarrow> [] | Some n \<Rightarrow> getNodeMathMl n) cs)"
proof (induction cs arbitrary: answer)
  case Nil
  then show ?case by simp
next
  case (Cons c cs)
  then show ?case by (cases c) (simp_all add: foldl_append_chars)
qed

lemma replace_scan_char:
  "replace_scan [c] new s = concat (map (\<lambda>x. if x = c then new else [x]) s)"
  by (induction s) auto

lemma str_replace_char:
  "str_replace [c] new s = concat (map (\<lambda>x. if x = c then new else [x]) s)"
  by (simp add: str_replace_def replace_scan_char)

lemma concat_map_concat_map:
  "concat (map f (concat (map g xs))) = concat (map (\<lambda>x. concat (map f (g x))) xs)"
  by (induction xs) simp_all

lemma html_escape_chars: "html_escape s = concat (map html_escape_char s)"
  unfolding html_escape_def Let_def str_replace_char concat_map_concat_map
  by (rule arg_cong [where f = concat], rule map_cong [OF refl])
     (simp add: html_escape_char_def)

lemma get_mathMl_children_None:
  "get_mathMl_children cs = None \<longleftrightarrow> (\<forall>c. Some c \<in> set cs \<longrightarrow> GetTagName c \<noteq> ''math'')"
proof (induction cs)
  case Nil
  then show ?case by simp
next
  case (Cons c cs)
  then show ?case by (cases c) auto
qed

lemma get_mathMl_children_first:
  assumes "\<forall>c. Some c \<in> set pre \<longrightarrow> GetTagName c \<noteq> ''math''"
    and "GetTagName child = ''math''"
  shows "get_mathMl_children (pre @ Some child # post) = Some (getNodeMathMl child)"
  using assms
proof (induction pre)
  case Nil
  then show ?case by simp
next
  case (Cons c pre)
  then show ?case by (cases c) auto
qed

section \<open>The three tiers of \<open>_get_mathMl\<close>\<close>

lemma html_escape_char_no_markup:
  "CHR ''<'' \<notin> set (html_escape_char c) \<and> CHR ''>'' \<notin> set (html_escape_char c)
   \<and> CHR 0x22 \<notin> set (html_escape_char c) \<and> CHR 0x27 \<notin> set (html_escape_char c)"
  by (simp add: html_escape_char_def)

lemma html_escape_no_markup:
  "CHR ''<'' \<notin> set (html_escape s) \<and> CHR ''>'' \<notin> set (html_escape s)
   \<and> CHR 0x22 \<notin> set (html_escape s) \<and> CHR 0x27 \<notin> set (html_escape s)"
  unfolding html_escape_chars using html_escape_char_no_markup by auto

lemma get_mathMl_fallback:
  assumes "GetAttribute node ''MSFT_MathML'' ''MSFT_Office'' = []"
    and "\<forall>child. Some child \<in> set (childNodes node) \<longrightarrow> GetTagName child \<noteq> ''math''"
  shows "get_mathMl (Some node) =
     (case GetValue node of
        None \<Rightarrow> Inl AttributeError
      | Some mathMl \<Rightarrow>
         if startswith mathMl ''<math''
         then Inr (str_replace mathml_xmlns_decl [] mathMl)
         else Inr (''<math><mtext>'' @ html_escape mathMl @ ''</mtext></math>''))"
proof -
  from assms(2) have "get_mathMl_children (childNodes node) = None"
    by (simp add: get_mathMl_children_None)
  with assms(1) show ?thesis
    by (simp add: get_mathMl_def)
qed

text \<open>
  C4. A non-empty MSFT_MathML attribute (owner MSFT_Office) is the result of
  \<open>_get_mathMl\<close>, unchanged, whatever the children and the value of the node are.
\<close>

theorem get_mathMl_vendor_attribute:
  assumes "GetAttribute node ''MSFT_MathML'' ''MSFT_Office'' \<noteq> []"
  shows "get_mathMl (Some node) = Inr (GetAttribute node ''MSFT_MathML'' ''MSFT_Office'')"
  using assms by (simp add: get_mathMl_def)

theorem get_mathMl_vendor_attribute_witness:
  "get_mathMl (Some (PDDomElement ''Formula'' []
      [((''MSFT_MathML'', ''MSFT_Office''), ''<math><mn>1</mn></math>'')] (Some ''alt'')
      [Some (PDDomElement ''math'' [] [] None [Some (PDDomElement ''mi'' [] [] (Some ''x'') [])])]))
   = Inr ''<math><mn>1</mn></math>''"
  using get_mathMl_vendor_attribute [of "PDDomElement ''Formula'' []
      [((''MSFT_MathML'', ''MSFT_Office''), ''<math><mn>1</mn></math>'')] (Some ''alt'')
      [Some (PDDomElement ''math'' [] [] None [Some (PDDomElement ''mi'' [] [] (Some ''x'') [])])]"]
  by (simp add: GetAttribute_def)

text \<open>
  The alt-text fallback on a value that is a string. With an empty vendor attribute, no
  child that narrows to an element tagged \<open>math\<close>, and a string value that does not start
  with \<open><math\<close>, the result is the value escaped by \<open>html.escape\<close> between
  \<open><math><mtext>\<close> and \<open></mtext></math>\<close>. The escaping works character by character,
  turns the ampersand and the two angle brackets into their entities and leaves no angle
  bracket behind. The empty string gives \<open><math><mtext></mtext></math>\<close>.
\<close>

lemma get_mathMl_alt_text_string:
  assumes "GetAttribute node ''MSFT_MathML'' ''MSFT_Office'' = []"
    and "\<forall>child. Some child \<in> set (childNodes node) \<longrightarrow> GetTagName child \<noteq> ''math''"
    and "GetValue node = Some v"
    and "\<not> startswith v ''<math''"
  shows "get_mathMl (Some node) = Inr (''<math><mtext>'' @ html_escape v @ ''</mtext></math>'')
   \<and> html_escape v = concat (map html_escape_char v)
   \<and> html_escape_char CHR ''&'' = ''&amp;''
   \<and> html_escape_char CHR ''<'' = ''&lt;''
   \<and> html_escape_char CHR ''>'' = ''&gt;''
   \<and> CHR ''<'' \<notin> set (html_escape v)
   \<and> CHR ''>'' \<notin> set (html_escape v)
   \<and> (v = [] \<longrightarrow> get_mathMl (Some node) = Inr ''<math><mtext></mtext></math>'')"
proof -
  have res: "get_mathMl (Some node) =
           Inr (''<math><mtext>'' @ html_escape v @ ''</mtext></math>'')"
    using get_mathMl_fallback [OF assms(1,2)] assms(3,4) by simp
  have empty: "get_mathMl (Some node) = Inr ''<math><mtext></mtext></math>''"
    if "v = []"
    using res that by (simp add: html_escape_chars)
  have chars: "html_escape_char CHR ''&'' = ''&amp;''" "html_escape_char CHR ''<'' = ''&lt;''"
    "html_escape_char CHR ''>'' = ''&gt;''"
    by (simp_all add: html_escape_char_def)
  from res empty chars html_escape_chars [of v] html_escape_no_markup [of v]
  show ?thesis by blast
qed

lemma get_mathMl_alt_text_example:
  "get_mathMl (Some (PDDomElement ''Formula'' [] [] (Some ''a < b'') [])) =
     Inr ''<math><mtext>a &lt; b</mtext></math>''
   \<and> get_mathMl (Some (PDDomElement ''Formula'' [] [] (Some []) [None])) =
     Inr ''<math><mtext></mtext></math>''"
  using get_mathMl_alt_text_string [of "PDDomElement ''Formula'' [] [] (Some ''a < b'') []" "''a < b''"]
    get_mathMl_alt_text_string [of "PDDomElement ''Formula'' [] [] (Some []) [None]" "[]"]
  by (simp add: GetAttribute_def startswith_def html_escape_char_def)

lemma get_mathMl_no_value:
  assumes "GetAttribute node ''MSFT_MathML'' ''MSFT_Office'' = []"
    and "\<forall>child. Some child \<in> set (childNodes node) \<longrightarrow> GetTagName child \<noteq> ''math''"
    and "GetValue node = None"
  shows "get_mathMl (Some node) = Inl AttributeError"
  using get_mathMl_fallback [OF assms(1,2)] assms(3) by simp

text \<open>
  C5. A node with no vendor attribute, no child tagged \<open>math\<close> and no value
  (\<open>GetValue()\<close> gives \<open>None\<close>) makes \<open>_get_mathMl\<close> raise AttributeError at
  \<open>mathMl.startswith\<close>: the third tier does not guard the value, where the first tier
  (\<open>if math:\<close>), \<open>_getNodeMathMl\<close> (\<open>if val:\<close>) and the caller of the value elsewhere in the
  module (\<open>self.obj.value or ""\<close>) do. The alt-text wrapper with an empty text is produced
  for the empty string only; the string \<open>a < b\<close> is wrapped and escaped.
\<close>

theorem get_mathMl_absent_value:
  "get_mathMl (Some (PDDomElement ''Formula'' [] [] None [])) = Inl AttributeError
   \<and> get_mathMl (Some (PDDomElement ''Formula'' [] [] (Some []) [])) =
       Inr ''<math><mtext></mtext></math>''
   \<and> get_mathMl (Some (PDDomElement ''Formula'' [] [] (Some ''a < b'') [])) =
       Inr ''<math><mtext>a &lt; b</mtext></math>''"
  by (simp add: get_mathMl_def GetAttribute_def startswith_def html_escape_chars
      html_escape_char_def)

text \<open>
  C6. With an empty vendor attribute and no child tagged \<open>math\<close>, a value that starts
  with \<open><math\<close> is returned after \<open>str.replace\<close> has removed the MathML namespace
  declaration for the prefix \<open>mml\<close>: a value without the declaration is returned as it
  is, and a value with one occurrence loses exactly that occurrence.
\<close>

theorem get_mathMl_strip_xmlns:
  assumes "GetAttribute node ''MSFT_MathML'' ''MSFT_Office'' = []"
    and "\<forall>child. Some child \<in> set (childNodes node) \<longrightarrow> GetTagName child \<noteq> ''math''"
    and "GetValue node = Some v"
    and "startswith v ''<math''"
  shows "get_mathMl (Some node) = Inr (str_replace mathml_xmlns_decl [] v)
   \<and> (\<not> sublist mathml_xmlns_decl v \<longrightarrow> get_mathMl (Some node) = Inr v)
   \<and> (\<forall>a b. v = a @ mathml_xmlns_decl @ b \<longrightarrow>
        \<not> sublist mathml_xmlns_decl (a @ butlast mathml_xmlns_decl) \<longrightarrow>
        \<not> sublist mathml_xmlns_decl b \<longrightarrow>
        get_mathMl (Some node) = Inr (a @ b))"
proof -
  have ne: "mathml_xmlns_decl \<noteq> []"
    by (simp add: mathml_xmlns_decl_def)
  have res: "get_mathMl (Some node) = Inr (str_replace mathml_xmlns_decl [] v)"
    using get_mathMl_fallback [OF assms(1,2)] assms(3,4) by simp
  have scan: "str_replace mathml_xmlns_decl [] w = replace_scan mathml_xmlns_decl [] w" for w
    using ne by (simp add: str_replace_def)
  have absent: "get_mathMl (Some node) = Inr v"
    if "\<not> sublist mathml_xmlns_decl v"
    using res that by (simp add: scan replace_scan_absent)
  have once: "get_mathMl (Some node) = Inr (a @ b)"
    if "v = a @ mathml_xmlns_decl @ b"
      and "\<not> sublist mathml_xmlns_decl (a @ butlast mathml_xmlns_decl)"
      and "\<not> sublist mathml_xmlns_decl b" for a b
  proof -
    have "replace_scan mathml_xmlns_decl [] (a @ mathml_xmlns_decl @ b) =
        a @ [] @ replace_scan mathml_xmlns_decl [] b"
      using ne that(2) by (rule replace_scan_first)
    with that(1,3) res show ?thesis
      by (simp add: scan replace_scan_absent)
  qed
  from res absent once show ?thesis by blast
qed

theorem get_mathMl_strip_xmlns_witness:
  "get_mathMl (Some (PDDomElement ''Formula'' [] []
      (Some ''<math xmlns:mml=\"http://www.w3.org/1998/Math/MathML\"><mi>x</mi></math>'') []))
   = Inr ''<math ><mi>x</mi></math>''"
  using get_mathMl_strip_xmlns [of "PDDomElement ''Formula'' [] []
      (Some ''<math xmlns:mml=\"http://www.w3.org/1998/Math/MathML\"><mi>x</mi></math>'') []"
      "''<math xmlns:mml=\"http://www.w3.org/1998/Math/MathML\"><mi>x</mi></math>''"]
  by (simp add: GetAttribute_def startswith_def str_replace_def mathml_xmlns_decl_def)

text \<open>
  C8. With an empty vendor attribute, the children are scanned in index order; children
  that do not narrow and children with another tag name are passed over, and the markup
  of the first child tagged \<open>math\<close> is the result, whatever children follow it.
\<close>

theorem get_mathMl_first_math_child:
  assumes "GetAttribute node ''MSFT_MathML'' ''MSFT_Office'' = []"
    and "childNodes node = pre @ Some child # post"
    and "\<forall>c. Some c \<in> set pre \<longrightarrow> GetTagName c \<noteq> ''math''"
    and "GetTagName child = ''math''"
  shows "get_mathMl (Some node) = Inr (getNodeMathMl child)"
proof -
  from assms(2-4) have "get_mathMl_children (childNodes node) = Some (getNodeMathMl child)"
    by (simp add: get_mathMl_children_first)
  with assms(1) show ?thesis
    by (simp add: get_mathMl_def)
qed

theorem get_mathMl_first_math_child_witness:
  "get_mathMl (Some (PDDomElement ''Formula'' [] [] (Some ''alt'')
      [None,
       Some (PDDomElement ''Span'' [] [] (Some ''s'') []),
       Some (PDDomElement ''math'' [] [] None [Some (PDDomElement ''mi'' [] [] (Some ''x'') [])]),
       Some (PDDomElement ''math'' [] [] None [Some (PDDomElement ''mn'' [] [] (Some ''2'') [])])]))
   = Inr ''<math><mi>x</mi></math>''"
  using get_mathMl_first_math_child [of
      "PDDomElement ''Formula'' [] [] (Some ''alt'')
      [None,
       Some (PDDomElement ''Span'' [] [] (Some ''s'') []),
       Some (PDDomElement ''math'' [] [] None [Some (PDDomElement ''mi'' [] [] (Some ''x'') [])]),
       Some (PDDomElement ''math'' [] [] None [Some (PDDomElement ''mn'' [] [] (Some ''2'') [])])]"
      "[None, Some (PDDomElement ''Span'' [] [] (Some ''s'') [])]"
      "PDDomElement ''math'' [] [] None [Some (PDDomElement ''mi'' [] [] (Some ''x'') [])]"
      "[Some (PDDomElement ''math'' [] [] None [Some (PDDomElement ''mn'' [] [] (Some ''2'') [])])]"]
  by (simp add: GetAttribute_def openingTag_def getMathMLAttributes_def matchTagAttrs_def)

text \<open>
  C9. In the alt-text fallback every character of the value goes through the escaping of
  \<open>html.escape\<close> with its default quoting: the double quote becomes \<open>&quot;\<close> and the
  single quote \<open>&#x27;\<close>, so that neither quote is left in the escaped text.
\<close>

theorem get_mathMl_alt_text_quotes:
  assumes "GetAttribute node ''MSFT_MathML'' ''MSFT_Office'' = []"
    and "\<forall>child. Some child \<in> set (childNodes node) \<longrightarrow> GetTagName child \<noteq> ''math''"
    and "GetValue node = Some v"
    and "\<not> startswith v ''<math''"
  shows "get_mathMl (Some node) =
           Inr (''<math><mtext>'' @ concat (map html_escape_char v) @ ''</mtext></math>'')
   \<and> html_escape_char (CHR 0x22) = ''&quot;''
   \<and> html_escape_char (CHR 0x27) = ''&#x27;''
   \<and> CHR 0x22 \<notin> set (html_escape v)
   \<and> CHR 0x27 \<notin> set (html_escape v)"
proof -
  have "get_mathMl (Some node) =
           Inr (''<math><mtext>'' @ html_escape v @ ''</mtext></math>'')"
    using get_mathMl_fallback [OF assms(1,2)] assms(3,4) by simp
  moreover have "html_escape_char (CHR 0x22) = ''&quot;''"
    and "html_escape_char (CHR 0x27) = ''&#x27;''"
    by (simp_all add: html_escape_char_def)
  ultimately show ?thesis
    using html_escape_no_markup [of v]
    by (simp add: html_escape_chars)
qed

theorem get_mathMl_alt_text_quotes_witness:
  "get_mathMl (Some (PDDomElement ''Formula'' [] [] (Some ''a\"b'') [])) =
     Inr ''<math><mtext>a&quot;b</mtext></math>''
   \<and> get_mathMl (Some (PDDomElement ''Formula'' [] [] (Some [CHR ''i'', CHR ''t'', CHR 0x27, CHR ''s'']) []))
       = Inr ''<math><mtext>it&#x27;s</mtext></math>''"
  using get_mathMl_alt_text_quotes [of "PDDomElement ''Formula'' [] [] (Some ''a\"b'') []"
      "''a\"b''"]
    get_mathMl_alt_text_quotes
      [of "PDDomElement ''Formula'' [] [] (Some [CHR ''i'', CHR ''t'', CHR 0x27, CHR ''s'']) []"
        "[CHR ''i'', CHR ''t'', CHR 0x27, CHR ''s'']"]
  by (simp add: GetAttribute_def startswith_def html_escape_char_def)

text \<open>
  C10. The scan of the children finds nothing exactly when no child that narrows has the
  tag name equal, as a string, to \<open>math\<close>; then the result is that of the fallback on the
  value of the node (AttributeError when the node has no value). A child tagged \<open>Math\<close>, \<open>MATH\<close> or \<open>math\<close> with blanks around
  it is not a match.
\<close>

theorem get_mathMl_math_tag_exact:
  assumes "GetAttribute node ''MSFT_MathML'' ''MSFT_Office'' = []"
  shows "(get_mathMl_children (childNodes node) = None \<longleftrightarrow>
            (\<forall>child. Some child \<in> set (childNodes node) \<longrightarrow> GetTagName child \<noteq> ''math''))
   \<and> ((\<forall>child. Some child \<in> set (childNodes node) \<longrightarrow> GetTagName child \<noteq> ''math'') \<longrightarrow>
        get_mathMl (Some node) =
          (case GetValue node of
             None \<Rightarrow> Inl AttributeError
           | Some mathMl \<Rightarrow>
              if startswith mathMl ''<math''
              then Inr (str_replace mathml_xmlns_decl [] mathMl)
              else Inr (''<math><mtext>'' @ html_escape mathMl @ ''</mtext></math>'')))"
  using get_mathMl_children_None [of "childNodes node"] get_mathMl_fallback [OF assms]
  by blast

theorem get_mathMl_math_tag_exact_witness:
  "get_mathMl (Some (PDDomElement ''Formula'' [] [] (Some ''x+1'')
      [Some (PDDomElement ''Math'' [] [] None [Some (PDDomElement ''mi'' [] [] (Some ''x'') [])]),
       Some (PDDomElement ''MATH'' [] [] None []),
       Some (PDDomElement '' math '' [] [] None []),
       Some (PDDomElement ''math '' [] [] None [])]))
   = Inr ''<math><mtext>x+1</mtext></math>''"
  using get_mathMl_math_tag_exact [of "PDDomElement ''Formula'' [] [] (Some ''x+1'')
      [Some (PDDomElement ''Math'' [] [] None [Some (PDDomElement ''mi'' [] [] (Some ''x'') [])]),
       Some (PDDomElement ''MATH'' [] [] None []),
       Some (PDDomElement '' math '' [] [] None []),
       Some (PDDomElement ''math '' [] [] None [])]"]
  by (simp add: GetAttribute_def startswith_def html_escape_chars html_escape_char_def)

section \<open>The attributes written by \<open>_getNodeMathMl\<close>\<close>

lemma matchTagAttrs_spec_whitelist: "matchTagAttrs tag = spec_whitelist tag"
  by (simp add: matchTagAttrs_def spec_whitelist_def spec_AttributeWhitelist_def)

lemma getMathMLAttributes_loop_render:
  "getMathMLAttributes_loop node attrList attrValues =
     attrValues @ concat (map render_attr (present_attrs node attrList))"
  by (induction attrList arbitrary: attrValues)
     (simp_all add: present_attrs_def render_attr_def Let_def)

lemma getMathMLAttributes_render:
  "getMathMLAttributes node attrList = concat (map render_attr (present_attrs node attrList))"
  by (simp add: getMathMLAttributes_def getMathMLAttributes_loop_render)

lemma openingTag_render:
  "openingTag node = ''<'' @ GetTagName node @ concat (map render_attr (emitted_attrs node)) @ ''>''"
  by (simp add: openingTag_def emitted_attrs_def getMathMLAttributes_render Let_def render_attr_def)

lemma getNodeMathMl_render_both:
  "getNodeMathMl node = render (emitted node)"
  "getNodeMathMl_children cs answer = answer @ concat (map render (emitted_children cs))"
proof (induction node and cs answer rule: getNodeMathMl_getNodeMathMl_children.induct)
  case (1 tag ident ats val cs)
  then show ?case
    by (simp add: openingTag_render Let_def split: option.splits)
next
  case (2 answer)
  then show ?case by simp
next
  case (3 cs answer)
  then show ?case by simp
next
  case (4 subNode cs answer)
  then show ?case by (simp add: foldl_append_chars)
qed

lemma present_attrs_sound:
  "av \<in> set (present_attrs node attrList) \<Longrightarrow> snd av \<noteq> [] \<and> fst av \<in> set attrList"
  by (auto simp: present_attrs_def)

lemma emitted_attrs_sound:
  assumes "av \<in> set (emitted_attrs node)"
  shows "snd av \<noteq> [] \<and> fst av \<in> set (code_allowed (GetTagName node))"
  using assms present_attrs_sound [of av node "[''intent'', ''arg'']"]
    present_attrs_sound [of av node "matchTagAttrs (GetTagName node)"]
  by (auto simp: emitted_attrs_def code_allowed_def spec_allowed_def
      matchTagAttrs_spec_whitelist split: if_splits)

lemma attrs_allowed_emitted_both:
  "attrs_allowed code_allowed (emitted node)"
  "\<forall>kid \<in> set (emitted_children cs). attrs_allowed code_allowed kid"
proof (induction node and cs rule: emitted_emitted_children.induct)
  case (1 tag ident ats val cs)
  then show ?case
    using emitted_attrs_sound [of _ "PDDomElement tag ident ats val cs"]
    by (auto simp: Let_def split: option.splits)
qed simp_all

text \<open>
  C2, the claim as stated: an element with the identifier \<open>x1\<close> is written with the
  attribute \<open>id\<close>, which is neither \<open>intent\<close> nor \<open>arg\<close> nor in the table entry of its
  tag.
\<close>

theorem getNodeMathMl_id_counterexample:
  "getNodeMathMl (PDDomElement ''mi'' ''x1'' [] (Some ''x'') []) = ''<mi id=\"x1\">x</mi>''
   \<and> emitted (PDDomElement ''mi'' ''x1'' [] (Some ''x'') []) =
       XElement ''mi'' [(''id'', ''x1'')] ''x'' []
   \<and> spec_allowed ''mi'' = [''intent'', ''arg'', ''mathvariant'']
   \<and> \<not> attrs_allowed spec_allowed (emitted (PDDomElement ''mi'' ''x1'' [] (Some ''x'') []))"
  by (simp add: openingTag_def getMathMLAttributes_def matchTagAttrs_def GetAttribute_def
      emitted_attrs_def present_attrs_def spec_allowed_def spec_whitelist_def
      spec_AttributeWhitelist_def)

text \<open>
  C2 (as amended). The string returned by \<open>_getNodeMathMl\<close> is the rendering of the
  element tree of the node, in which every attribute has a non-empty value and a name that
  is \<open>id\<close>, \<open>intent\<close>, \<open>arg\<close> or in the table entry of the tag of its element; an
  attribute that is absent or empty is not written. The \<open>match\<close> statement of the
  source and the table of the specification list the same names for every tag.
\<close>

theorem getNodeMathMl_attributes:
  "getNodeMathMl node = render (emitted node)
   \<and> attrs_allowed code_allowed (emitted node)
   \<and> matchTagAttrs tag = spec_whitelist tag"
  using getNodeMathMl_render_both(1) [of node] attrs_allowed_emitted_both(1) [of node]
    matchTagAttrs_spec_whitelist [of tag]
  by simp

theorem getNodeMathMl_attributes_witness:
  "getNodeMathMl (PDDomElement ''mfenced'' [] [((''open'', ''NSO''), ''['')] None
      [Some (PDDomElement ''mi'' [] [((''close'', ''NSO''), '']'')] (Some ''x'') [])])
     = ''<mfenced open=\"[\"><mi>x</mi></mfenced>''
   \<and> emitted (PDDomElement ''mfenced'' [] [((''open'', ''NSO''), ''['')] None
      [Some (PDDomElement ''mi'' [] [((''close'', ''NSO''), '']'')] (Some ''x'') [])])
     = XElement ''mfenced'' [(''open'', ''['')] [] [XElement ''mi'' [] ''x'' []]
   \<and> attrs_allowed code_allowed
       (XElement ''mfenced'' [(''open'', ''['')] [] [XElement ''mi'' [] ''x'' []])"
  using getNodeMathMl_attributes [of "PDDomElement ''mfenced'' [] [((''open'', ''NSO''), ''['')] None
      [Some (PDDomElement ''mi'' [] [((''close'', ''NSO''), '']'')] (Some ''x'') [])]" "''mfenced''"]
  by (simp add: emitted_attrs_def present_attrs_def matchTagAttrs_def GetAttribute_def
      render_attr_def code_allowed_def spec_allowed_def spec_whitelist_def
      spec_AttributeWhitelist_def)

section \<open>Tags in the string returned by \<open>_getNodeMathMl\<close>\<close>

lemma scan_text:
  "CHR ''<'' \<notin> set t \<Longrightarrow> foldl scan_step (InText, stack) t = (InText, stack)"
  by (induction t) auto

lemma scan_tag_body:
  "CHR ''<'' \<notin> set b \<Longrightarrow> CHR ''>'' \<notin> set b \<Longrightarrow>
   foldl scan_step (InTag acc, stack) b = (InTag (acc @ b), stack)"
  by (induction b arbitrary: acc) auto

lemma scan_tag:
  assumes "CHR ''<'' \<notin> set b" and "CHR ''>'' \<notin> set b"
  shows "foldl scan_step (InText, stack) (''<'' @ b @ ''>'') = end_tag b stack"
  using assms by (simp add: scan_tag_body)

lemma balanced_tags_examples:
  "balanced_tags ''<math><mi id=\"a\">x</mi><mo>+</mo></math>''
   \<and> balanced_tags ''a > b''
   \<and> balanced_tags ''<a><br/></a>''
   \<and> \<not> balanced_tags ''<a><b></a>''
   \<and> \<not> balanced_tags ''<a>''
   \<and> \<not> balanced_tags ''</a>''
   \<and> \<not> balanced_tags ''<a></b>''"
  by (simp add: balanced_tags_def end_tag_def)

lemma GetAttribute_plain:
  assumes "list_all (\<lambda>kv. plain_attr_value (snd kv)) (attributes node)"
  shows "plain_attr_value (GetAttribute node attr owner)"
proof (cases "map_of (attributes node) (attr, owner)")
  case None
  then show ?thesis by (simp add: GetAttribute_def plain_attr_value_def)
next
  case (Some v)
  then have "((attr, owner), v) \<in> set (attributes node)" by (rule map_of_SomeD)
  with assms have "plain_attr_value v" by (auto simp: list_all_iff)
  with Some show ?thesis by (simp add: GetAttribute_def)
qed

lemma matchTagAttrs_plain: "n \<in> set (matchTagAttrs tag) \<Longrightarrow> plain_attr_value n"
  by (auto simp: matchTagAttrs_def plain_attr_value_def split: if_splits)

lemma render_attr_plain:
  "plain_attr_value (fst av) \<Longrightarrow> plain_attr_value (snd av) \<Longrightarrow> plain_attr_value (render_attr av)"
  by (auto simp: plain_attr_value_def render_attr_def)

lemma present_attrs_plain:
  assumes "list_all (\<lambda>kv. plain_attr_value (snd kv)) (attributes node)"
    and "\<forall>n \<in> set attrList. plain_attr_value n"
    and "av \<in> set (present_attrs node attrList)"
  shows "plain_attr_value (render_attr av)"
proof -
  from assms(3) obtain attr where "attr \<in> set attrList" "av = (attr, GetAttribute node attr ''NSO'')"
    by (auto simp: present_attrs_def)
  with assms(2) GetAttribute_plain [OF assms(1), of attr "''NSO''"] show ?thesis
    by (simp add: render_attr_plain)
qed

lemma emitted_attrs_plain:
  assumes "list_all (\<lambda>kv. plain_attr_value (snd kv)) (attributes node)"
    and "plain_attr_value (GetID node)"
  shows "plain_attr_value (concat (map render_attr (emitted_attrs node)))"
proof -
  have "plain_attr_value (render_attr av)" if "av \<in> set (emitted_attrs node)" for av
  proof -
    from that consider "av = (''id'', GetID node)"
      | "av \<in> set (present_attrs node [''intent'', ''arg''])"
      | "av \<in> set (present_attrs node (matchTagAttrs (GetTagName node)))"
      by (auto simp: emitted_attrs_def split: if_splits)
    then show ?thesis
    proof cases
      case 1
      with assms(2) show ?thesis by (auto simp: render_attr_def plain_attr_value_def)
    next
      case 2
      have "\<forall>n \<in> set [''intent'', ''arg'']. plain_attr_value n"
        by (simp add: plain_attr_value_def)
      with assms(1) show ?thesis using 2 by (rule present_attrs_plain)
    next
      case 3
      have "\<forall>n \<in> set (matchTagAttrs (GetTagName node)). plain_attr_value n"
        by (simp add: matchTagAttrs_plain)
      with assms(1) show ?thesis using 3 by (rule present_attrs_plain)
    qed
  qed
  then show ?thesis by (auto simp: plain_attr_value_def)
qed

lemma render_attrs_shape:
  "concat (map render_attr xs) = []
   \<or> (\<exists>m. concat (map render_attr xs) = CHR '' '' # m @ [CHR 0x22])"
proof (induction xs)
  case Nil
  then show ?case by simp
next
  case (Cons av xs)
  have av: "render_attr av = CHR '' '' # (fst av @ ''=\"'' @ snd av) @ [CHR 0x22]"
    by (simp add: render_attr_def)
  from Cons.IH show ?case
  proof
    assume e: "concat (map render_attr xs) = []"
    have "concat (map render_attr (av # xs)) = render_attr av @ concat (map render_attr xs)"
      by simp
    also have "\<dots> = CHR '' '' # (fst av @ ''=\"'' @ snd av) @ [CHR 0x22]"
      unfolding e av by simp
    finally show ?thesis by blast
  next
    assume "\<exists>m. concat (map render_attr xs) = CHR '' '' # m @ [CHR 0x22]"
    then obtain m where m: "concat (map render_attr xs) = CHR '' '' # m @ [CHR 0x22]" ..
    have "concat (map render_attr (av # xs)) =
        CHR '' '' # ((fst av @ ''=\"'' @ snd av) @ [CHR 0x22] @ CHR '' '' # m) @ [CHR 0x22]"
      by (simp add: av m)
    then show ?thesis by blast
  qed
qed

lemma end_tag_open:
  assumes "plain_name tag"
    and "A = [] \<or> (\<exists>m. A = CHR '' '' # m @ [CHR 0x22])"
  shows "end_tag (tag @ A) stack = (InText, tag # stack)"
proof -
  from assms(1) obtain c cs where tag: "tag = c # cs"
    by (cases tag) (simp_all add: plain_name_def)
  from assms(1) have c: "c \<noteq> CHR ''/''"
    by (auto simp: plain_name_def tag)
  from assms(1) have nosp: "x \<in> set tag \<Longrightarrow> x \<noteq> CHR '' ''" for x
    by (auto simp: plain_name_def)
  from assms(1) have "tag \<noteq> []"
    by (simp add: plain_name_def)
  then have "last tag \<in> set tag"
    by (rule last_in_set)
  moreover from assms(1) have "CHR ''/'' \<notin> set tag"
    by (auto simp: plain_name_def)
  ultimately have lt: "last tag \<noteq> CHR ''/''"
    by (rule_tac notI) simp
  have unfold: "end_tag (tag @ A) stack =
      (if last (tag @ A) = CHR ''/'' then (InText, stack)
       else (InText, takeWhile (\<lambda>x. x \<noteq> CHR '' '') (tag @ A) # stack))"
    using c by (simp add: end_tag_def tag)
  from assms(2) have "last (tag @ A) \<noteq> CHR ''/''
      \<and> takeWhile (\<lambda>x. x \<noteq> CHR '' '') (tag @ A) = tag"
  proof
    assume "A = []"
    with lt nosp show ?thesis
      by (simp add: takeWhile_eq_all_conv)
  next
    assume "\<exists>m. A = CHR '' '' # m @ [CHR 0x22]"
    then obtain m where A: "A = CHR '' '' # m @ [CHR 0x22]" ..
    have "last (tag @ A) = CHR 0x22"
      by (simp add: A)
    moreover have "takeWhile (\<lambda>x. x \<noteq> CHR '' '') (tag @ A) = tag"
      using nosp by (simp add: A)
    ultimately show ?thesis
      by simp
  qed
  with unfold show ?thesis
    by simp
qed

lemma end_tag_close: "end_tag (CHR ''/'' # tag) (tag # stack) = (InText, stack)"
  by (simp add: end_tag_def)

lemma getNodeMathMl_unfold:
  "getNodeMathMl (PDDomElement tag ident ats val cs) =
     (''<'' @ (tag @ concat (map render_attr (emitted_attrs (PDDomElement tag ident ats val cs))))
        @ ''>'')
     @ (case val of
          Some v \<Rightarrow>
            if v \<noteq> [] then v
            else concat (map (\<lambda>c. case c of None \<Rightarrow> [] | Some n \<Rightarrow> getNodeMathMl n) cs)
        | None \<Rightarrow> concat (map (\<lambda>c. case c of None \<Rightarrow> [] | Some n \<Rightarrow> getNodeMathMl n) cs))
     @ (''<'' @ (CHR ''/'' # tag) @ ''>'')"
  by (simp add: openingTag_render getNodeMathMl_children_concat Let_def split: option.splits)

lemma scan_element:
  assumes tag: "plain_name tag"
    and attrs: "plain_attr_value A" "A = [] \<or> (\<exists>m. A = CHR '' '' # m @ [CHR 0x22])"
    and inner: "foldl scan_step (InText, tag # stack) inner = (InText, tag # stack)"
  shows "foldl scan_step (InText, stack)
      ((''<'' @ (tag @ A) @ ''>'') @ inner @ (''<'' @ (CHR ''/'' # tag) @ ''>'')) = (InText, stack)"
proof -
  from tag attrs(1) have b: "CHR ''<'' \<notin> set (tag @ A)" "CHR ''>'' \<notin> set (tag @ A)"
    by (auto simp: plain_name_def plain_attr_value_def)
  from tag have c: "CHR ''<'' \<notin> set (CHR ''/'' # tag)" "CHR ''>'' \<notin> set (CHR ''/'' # tag)"
    by (auto simp: plain_name_def)
  define otag where "otag = ''<'' @ (tag @ A) @ ''>''"
  define ctag where "ctag = ''<'' @ (CHR ''/'' # tag) @ ''>''"
  have 1: "foldl scan_step (InText, stack) otag = (InText, tag # stack)"
    unfolding otag_def using scan_tag [OF b] end_tag_open [OF tag attrs(2)] by simp
  have 2: "foldl scan_step (InText, tag # stack) ctag = (InText, stack)"
    unfolding ctag_def using scan_tag [OF c] end_tag_close by simp
  have "foldl scan_step (InText, stack) (otag @ inner @ ctag) = (InText, stack)"
    by (simp add: 1 inner 2)
  then show ?thesis
    unfolding otag_def ctag_def .
qed

lemma scan_getNodeMathMl_both:
  "markup_free node \<Longrightarrow>
     \<forall>stack. foldl scan_step (InText, stack) (getNodeMathMl node) = (InText, stack)"
  "markup_free_children cs \<Longrightarrow>
     \<forall>stack. foldl scan_step (InText, stack)
       (concat (map (\<lambda>c. case c of None \<Rightarrow> [] | Some n \<Rightarrow> getNodeMathMl n) cs)) = (InText, stack)"
proof (induction node and cs rule: markup_free_markup_free_children.induct)
  case (1 tag ident ats val cs)
  let ?n = "PDDomElement tag ident ats val cs"
  let ?A = "concat (map render_attr (emitted_attrs ?n))"
  let ?kids = "concat (map (\<lambda>c. case c of None \<Rightarrow> [] | Some n \<Rightarrow> getNodeMathMl n) cs)"
  let ?inner = "case val of Some v \<Rightarrow> if v \<noteq> [] then v else ?kids | None \<Rightarrow> ?kids"
  from "1.prems" have tag: "plain_name tag" by simp
  from "1.prems" have A: "plain_attr_value ?A"
    using emitted_attrs_plain [of ?n] by simp
  have shape: "?A = [] \<or> (\<exists>m. ?A = CHR '' '' # m @ [CHR 0x22])"
    by (rule render_attrs_shape)
  from "1.prems" have "markup_free_children cs" by simp
  then have kids: "foldl scan_step (InText, st) ?kids = (InText, st)" for st
    using "1.IH" by simp
  show ?case
  proof
    fix stack
    have inner: "foldl scan_step (InText, tag # stack) ?inner = (InText, tag # stack)"
    proof (cases val)
      case None
      then show ?thesis by (simp add: kids)
    next
      case (Some v)
      with "1.prems" have "CHR ''<'' \<notin> set v" by (simp add: plain_text_def)
      then have "foldl scan_step (InText, tag # stack) v = (InText, tag # stack)"
        by (rule scan_text)
      with Some show ?thesis by (simp add: kids)
    qed
    show "foldl scan_step (InText, stack) (getNodeMathMl ?n) = (InText, stack)"
      unfolding getNodeMathMl_unfold
      using tag A shape inner by (rule scan_element)
  qed
next
  case 2
  then show ?case by simp
next
  case (3 cs)
  then show ?case by simp
next
  case (4 subNode cs)
  then show ?case by simp
qed

text \<open>
  For a node that is free of markup characters the tags of the returned string are
  balanced, whatever children fail to narrow: every call writes one opening tag and one
  closing tag of the same name around what it writes for the value or the children.
\<close>

lemma getNodeMathMl_balanced_tags: "markup_free node \<Longrightarrow> balanced_tags (getNodeMathMl node)"
  using scan_getNodeMathMl_both(1) [of node] by (simp add: balanced_tags_def)

lemma getNodeMathMl_failed_child:
  "getNodeMathMl (PDDomElement ''mrow'' [] [] None
      [Some (PDDomElement ''mi'' [] [] (Some ''x'') []),
       None,
       Some (PDDomElement ''mn'' [] [] (Some ''2'') [])])
     = ''<mrow><mi>x</mi><mn>2</mn></mrow>''
   \<and> balanced_tags ''<mrow><mi>x</mi><mn>2</mn></mrow>''"
  by (simp add: openingTag_def getMathMLAttributes_def matchTagAttrs_def GetAttribute_def
      balanced_tags_def end_tag_def)

text \<open>
  C1. \<open>_getNodeMathMl\<close> appends the value of a node as it is (\<open>answer += val\<close>), without
  the escaping that the alt-text tier of \<open>_get_mathMl\<close> applies to the same kind of value
  (\<open>html.escape\<close>), although its docstring promises an XML string. An operator element
  with the value \<open><\<close> gives \<open><mo><</mo>\<close>, and a text element with the value
  \<open>x<y, y>z\<close> gives a string in which the tag \<open><y, y>\<close> is opened and never closed: the
  tags of neither string are balanced.
\<close>

theorem getNodeMathMl_unescaped_value:
  "getNodeMathMl (PDDomElement ''math'' [] [] None
      [Some (PDDomElement ''mi'' [] [] (Some ''a'') []),
       Some (PDDomElement ''mo'' [] [] (Some ''<'') []),
       Some (PDDomElement ''mi'' [] [] (Some ''b'') [])])
     = ''<math><mi>a</mi><mo><</mo><mi>b</mi></math>''
   \<and> \<not> balanced_tags ''<math><mi>a</mi><mo><</mo><mi>b</mi></math>''
   \<and> getNodeMathMl (PDDomElement ''mtext'' [] [] (Some ''x<y, y>z'') [])
     = ''<mtext>x<y, y>z</mtext>''
   \<and> \<not> balanced_tags ''<mtext>x<y, y>z</mtext>''"
  by (simp add: openingTag_def getMathMLAttributes_def matchTagAttrs_def GetAttribute_def
      balanced_tags_def end_tag_def)

end
